theory Spec2Isabelle
  imports Main "HOL-Library.Sublist"
begin

section \<open>Python strings\<close>

text \<open>
  A Python \<^verbatim>\<open>str\<close> is a sequence of Unicode code points, and \<^verbatim>\<open>len\<close>, slicing,
  \<^verbatim>\<open>startswith\<close> and \<^verbatim>\<open>strip\<close> all work on code points. A string is therefore a list
  of code points (natural numbers), not a list of bytes. \<open>str\<close> embeds an ASCII literal.
\<close>

type_synonym pystr = "nat list"

definition str :: "string \<Rightarrow> pystr" where
  "str s = map of_char s"

text \<open>
  \<^verbatim>\<open>str.isspace\<close> for one code point: the characters Python's \<^verbatim>\<open>strip()\<close> removes
  when called with no argument.
\<close>

definition isspace :: "nat \<Rightarrow> bool" where
  "isspace c =
     ((9 \<le> c \<and> c \<le> 13) \<or> (28 \<le> c \<and> c \<le> 32) \<or> c = 133 \<or> c = 160 \<or> c = 5760 \<or>
      (8192 \<le> c \<and> c \<le> 8202) \<or> c = 8232 \<or> c = 8233 \<or> c = 8239 \<or> c = 8287 \<or>
      c = 12288)"

definition lstrip :: "pystr \<Rightarrow> pystr" where
  "lstrip s = dropWhile isspace s"

definition rstrip :: "pystr \<Rightarrow> pystr" where
  "rstrip s = rev (dropWhile isspace (rev s))"

definition strip :: "pystr \<Rightarrow> pystr" where
  "strip s = rstrip (lstrip s)"

text \<open>\<^verbatim>\<open>s.startswith(p)\<close>: the first \<open>len(p)\<close> code points of \<open>s\<close> are \<open>p\<close>.\<close>

definition startswith :: "pystr \<Rightarrow> pystr \<Rightarrow> bool" where
  "startswith s p = (take (length p) s = p)"

text \<open>An f-string field holding a value that may be \<^verbatim>\<open>None\<close>.\<close>

definition fmt_opt :: "pystr option \<Rightarrow> pystr" where
  "fmt_opt v = (case v of None \<Rightarrow> str ''None'' | Some s \<Rightarrow> s)"

section \<open>Data model\<close>

text \<open>
  The JSON objects the program reads are dictionaries read with \<^verbatim>\<open>.get\<close>; a key that
  may be missing is an \<open>option\<close> field. \<^verbatim>\<open>doc['id']\<close> is read by subscript, so the
  identifier is a plain field.
\<close>

record meeting =
  doc_id :: pystr
  doc_title :: "pystr option"
  created_at :: "pystr option"

record panel =
  panel_title :: "pystr option"
  original_content :: "pystr option"

record segment =
  seg_text :: "pystr option"
  seg_source :: "pystr option"

text \<open>A block of the destination: \<^verbatim>\<open>type\<close>, \<^verbatim>\<open>textStyle\<close>, \<^verbatim>\<open>markdown\<close>, \<^verbatim>\<open>content\<close>.\<close>

datatype block =
  Block (block_type: pystr) (textStyle: "pystr option") (markdown: pystr)
    (content: "block list option")

text \<open>A calendar date, as \<^verbatim>\<open>datetime.date\<close> holds it.\<close>

record date =
  year :: nat
  month :: nat
  day :: nat

section \<open>Dates\<close>

definition digit :: "nat \<Rightarrow> nat" where
  "digit n = 48 + n mod 10"

text \<open>
  \<^verbatim>\<open>date.isoformat()\<close> is \<^verbatim>\<open>"%04d-%02d-%02d"\<close>; a \<^verbatim>\<open>date\<close> has a year from 1 to 9999,
  a month from 1 to 12 and a day from 1 to 31, so every field fills its width exactly.
\<close>

definition isoformat :: "date \<Rightarrow> pystr" where
  "isoformat d =
     [digit (year d div 1000), digit (year d div 100), digit (year d div 10), digit (year d)]
     @ [45] @ [digit (month d div 10), digit (month d)]
     @ [45] @ [digit (day d div 10), digit (day d)]"

section \<open>Transcript formatting\<close>

definition microphone_prefix :: pystr where
  "microphone_prefix = [127897, 65039, 32]"

definition device_prefix :: pystr where
  "device_prefix = [128187, 32]"

definition no_transcript :: pystr where
  "no_transcript = str ''No transcript available.''"

text \<open>The text of a segment after \<^verbatim>\<open>seg.get("text", "").strip()\<close>.\<close>

definition trimmed_text :: "segment \<Rightarrow> pystr" where
  "trimmed_text seg = strip (case seg_text seg of None \<Rightarrow> [] | Some t \<Rightarrow> t)"

text \<open>The prefix chosen from \<^verbatim>\<open>seg.get("source", "unknown")\<close>.\<close>

definition source_prefix :: "segment \<Rightarrow> pystr" where
  "source_prefix seg =
     (let source = (case seg_source seg of None \<Rightarrow> str ''unknown'' | Some s \<Rightarrow> s)
      in if source = str ''microphone'' then microphone_prefix else device_prefix)"

text \<open>The loop of \<^verbatim>\<open>format_transcript\<close>, with the accumulator \<^verbatim>\<open>formatted\<close>.\<close>

fun format_loop :: "segment list \<Rightarrow> pystr \<Rightarrow> pystr" where
  "format_loop [] formatted = formatted"
| "format_loop (seg # segs) formatted =
     (let text = trimmed_text seg
      in if text \<noteq> []
         then format_loop segs (formatted @ source_prefix seg @ text @ [10, 10])
         else format_loop segs formatted)"

text \<open>
  \<^verbatim>\<open>format_transcript(segments)\<close>. The argument is \<open>None\<close> when the transcript is
  absent (a JSON \<^verbatim>\<open>null\<close>); \<^verbatim>\<open>not segments\<close> holds for \<open>None\<close> and for the empty list.
\<close>

definition format_transcript :: "segment list option \<Rightarrow> pystr" where
  "format_transcript segments =
     (case segments of
        None \<Rightarrow> no_transcript
      | Some segs \<Rightarrow> if segs = [] then no_transcript else strip (format_loop segs []))"

section \<open>Filtering meetings by date\<close>

definition filter_meetings_by_date :: "meeting list \<Rightarrow> date \<Rightarrow> meeting list" where
  "filter_meetings_by_date documents target_date =
     (let date_str = isoformat target_date
      in filter (\<lambda>d. startswith (case created_at d of None \<Rightarrow> [] | Some c \<Rightarrow> c) date_str)
           documents)"

section \<open>Blocks of one meeting\<close>

definition untitled_meeting :: pystr where
  "untitled_meeting = str ''Untitled Meeting''"

text \<open>\<^verbatim>\<open>title = doc.get("title") or "Untitled Meeting"\<close>\<close>

definition meeting_title :: "meeting \<Rightarrow> pystr" where
  "meeting_title doc =
     (case doc_title doc of
        None \<Rightarrow> untitled_meeting
      | Some t \<Rightarrow> if t = [] then untitled_meeting else t)"

definition truncation_suffix :: pystr where
  "truncation_suffix = [10, 10] @ str ''... (transcript too long, truncated)''"

text \<open>The \<^verbatim>\<open>markdown\<close> of the text block nested in the transcript page.\<close>

definition transcript_markdown :: "pystr \<Rightarrow> pystr" where
  "transcript_markdown transcript_text =
     (if length transcript_text < 50000 then transcript_text
      else take 50000 transcript_text @ truncation_suffix)"

definition full_transcript_title :: pystr where
  "full_transcript_title = [128196] @ str '' Full Transcript''"

text \<open>The list \<^verbatim>\<open>meeting_blocks\<close> that \<^verbatim>\<open>main\<close> builds for one meeting.\<close>

definition meeting_blocks :: "pystr \<Rightarrow> pystr \<Rightarrow> pystr \<Rightarrow> block list" where
  "meeting_blocks title content_md transcript_text =
     [Block (str ''text'') (Some (str ''h2'')) title None,
      Block (str ''text'') None content_md None,
      Block (str ''page'') (Some (str ''card'')) full_transcript_title
        (Some [Block (str ''text'') None (transcript_markdown transcript_text) None]),
      Block (str ''text'') None (str ''---'') None]"

section \<open>The document tree of the HTML parser\<close>

text \<open>
  \<^verbatim>\<open>BeautifulSoup(html_content, 'html.parser')\<close> builds a tree: a tag with its name, its
  attributes and its children, a string of character data (\<^verbatim>\<open>NavigableString\<close>, what
  \<^verbatim>\<open>get_text()\<close> collects), or a string \<^verbatim>\<open>get_text()\<close> leaves out (a comment, a
  declaration, a processing instruction). The soup itself is the list of its top-level
  nodes.
\<close>

datatype node =
    Tag (tag_name: pystr) (tag_attrs: "(pystr \<times> pystr) list") (tag_children: "node list")
  | NavigableString pystr
  | Comment pystr

text \<open>\<^verbatim>\<open>get_text()\<close>: the character data below a node, in document order.\<close>

fun get_text :: "node \<Rightarrow> pystr" where
  "get_text (Tag name attrs children) = concat (map get_text children)"
| "get_text (NavigableString s) = s"
| "get_text (Comment s) = []"

definition soup_get_text :: "node list \<Rightarrow> pystr" where
  "soup_get_text soup = concat (map get_text soup)"

text \<open>
  One loop \<^verbatim>\<open>for t in soup.find_all(name): t.replace_with(render(t))\<close>.
  \<^verbatim>\<open>find_all\<close> returns the list of matching tags in document order before the loop
  starts, so a tag comes before the tags nested in it. \<^verbatim>\<open>replace_with\<close> detaches the
  tag and puts a string in its place; the text is computed when the tag is reached, from
  the subtree as it is then. A matching tag nested in an earlier match is still in the
  list, but it lives in the detached subtree (its parent is not \<^verbatim>\<open>None\<close>, so
  \<^verbatim>\<open>replace_with\<close> does not raise) and replacing it changes nothing of the soup. On
  the soup the loop therefore replaces every outermost matching tag and descends into
  every other tag.
\<close>

fun replace_tags :: "pystr \<Rightarrow> (node \<Rightarrow> pystr) \<Rightarrow> node \<Rightarrow> node" where
  "replace_tags name render (Tag n attrs children) =
     (if n = name then NavigableString (render (Tag n attrs children))
      else Tag n attrs (map (replace_tags name render) children))"
| "replace_tags name render (NavigableString s) = NavigableString s"
| "replace_tags name render (Comment s) = Comment s"

text \<open>\<^verbatim>\<open>a.get('href')\<close>: the attribute, or \<^verbatim>\<open>None\<close>.\<close>

definition get_attr :: "node \<Rightarrow> pystr \<Rightarrow> pystr option" where
  "get_attr t key = (case t of Tag n attrs children \<Rightarrow> map_of attrs key | _ \<Rightarrow> None)"

definition render_h3 :: "node \<Rightarrow> pystr" where
  "render_h3 h3 = str ''### '' @ get_text h3 @ [10]"

definition render_li :: "node \<Rightarrow> pystr" where
  "render_li li = str ''- '' @ get_text li @ [10]"

definition render_p :: "node \<Rightarrow> pystr" where
  "render_p p = get_text p @ [10, 10]"

definition render_a :: "node \<Rightarrow> pystr" where
  "render_a a = str ''['' @ get_text a @ str '']('' @ fmt_opt (get_attr a (str ''href'')) @ str '')''"

section \<open>Collapsing newlines\<close>

text \<open>
  \<^verbatim>\<open>re.sub(r'\n{3,}', '\n\n', text)\<close>: the pattern is greedy and matches are found left
  to right, so every maximal run of three or more newlines is one match and becomes two
  newlines; shorter runs stay. \<open>emit_newlines n\<close> is what a maximal run of \<open>n\<close> newlines
  becomes, and \<open>sub_newlines n s\<close> reads \<open>s\<close> after a run of \<open>n\<close> newlines.
\<close>

definition emit_newlines :: "nat \<Rightarrow> pystr" where
  "emit_newlines n = replicate (if 3 \<le> n then 2 else n) 10"

fun sub_newlines :: "nat \<Rightarrow> pystr \<Rightarrow> pystr" where
  "sub_newlines n [] = emit_newlines n"
| "sub_newlines n (c # cs) =
     (if c = 10 then sub_newlines (Suc n) cs
      else emit_newlines n @ c # sub_newlines 0 cs)"

definition collapse_newlines :: "pystr \<Rightarrow> pystr" where
  "collapse_newlines text = sub_newlines 0 text"

section \<open>HTML to markdown\<close>

text \<open>
  \<^verbatim>\<open>html_to_markdown(html_content)\<close>. The parser is a library, not code of this
  program, so it is a parameter: \<open>parse\<close> is \<^verbatim>\<open>BeautifulSoup(_, 'html.parser')\<close>. A
  \<^verbatim>\<open>None\<close> argument takes the same first branch as the empty string.
\<close>

definition soup_to_markdown :: "node list \<Rightarrow> pystr" where
  "soup_to_markdown soup =
     (let soup = map (replace_tags (str ''h3'') render_h3) soup;
          soup = map (replace_tags (str ''li'') render_li) soup;
          soup = map (replace_tags (str ''p'') render_p) soup;
          soup = map (replace_tags (str ''a'') render_a) soup;
          text = soup_get_text soup;
          text = collapse_newlines text
      in strip text)"

definition html_to_markdown :: "(pystr \<Rightarrow> node list) \<Rightarrow> pystr \<Rightarrow> pystr" where
  "html_to_markdown parse html_content =
     (if html_content = [] then [] else soup_to_markdown (parse html_content))"

section \<open>The summary of one meeting\<close>

definition no_summary :: pystr where
  "no_summary = str ''No summary available.''"

text \<open>
  The loop over the panels with its \<^verbatim>\<open>break\<close>: the value of \<^verbatim>\<open>summary_html\<close> after
  it. \<^verbatim>\<open>panel.get("original_content", "")\<close> is \<open>None\<close> for a missing key or a JSON
  \<^verbatim>\<open>null\<close>; both are false in the test that follows, as the empty string is.
\<close>

fun find_summary_html :: "panel list \<Rightarrow> pystr" where
  "find_summary_html [] = []"
| "find_summary_html (panel # panels) =
     (if panel_title panel = Some (str ''Summary'')
      then (case original_content panel of None \<Rightarrow> [] | Some h \<Rightarrow> h)
      else find_summary_html panels)"

text \<open>\<^verbatim>\<open>content_md\<close>, the markdown of the summary block.\<close>

definition summary_content :: "(pystr \<Rightarrow> node list) \<Rightarrow> panel list \<Rightarrow> pystr" where
  "summary_content parse panels =
     (let summary_html = find_summary_html panels
      in if summary_html \<noteq> [] then html_to_markdown parse summary_html else no_summary)"

section \<open>A model of the parser on a fragment of HTML\<close>

text \<open>
  The theorems about \<open>html_to_markdown\<close> hold for every parser. To evaluate the
  conversion on concrete markup, \<open>html_parser\<close> models
  \<^verbatim>\<open>BeautifulSoup(markup, 'html.parser')\<close> on a fragment of HTML where the behaviour of
  the library is plain: character data; the entities \<^verbatim>\<open>&lt;\<close>, \<^verbatim>\<open>&gt;\<close>, \<^verbatim>\<open>&amp;\<close> and
  \<^verbatim>\<open>&quot;\<close>; a \<^verbatim>\<open><\<close> or \<^verbatim>\<open>&\<close> that cannot start markup (it is character data);
  start tags with quoted attributes and end tags of elements that the library treats in
  no special way. Every other construct (comments, declarations, character references,
  void elements, \<^verbatim>\<open>script\<close>, \<^verbatim>\<open>style\<close>, \<^verbatim>\<open>pre\<close>, unquoted attributes, ...) is outside
  the fragment: the tokenizer gives \<open>None\<close> and the model says nothing about it.
\<close>

definition is_alpha :: "nat \<Rightarrow> bool" where
  "is_alpha c = ((65 \<le> c \<and> c \<le> 90) \<or> (97 \<le> c \<and> c \<le> 122))"

definition is_alnum :: "nat \<Rightarrow> bool" where
  "is_alnum c = (is_alpha c \<or> (48 \<le> c \<and> c \<le> 57))"

definition is_attr_name_char :: "nat \<Rightarrow> bool" where
  "is_attr_name_char c = (is_alnum c \<or> c = 45)"

definition lower :: "nat \<Rightarrow> nat" where
  "lower c = (if 65 \<le> c \<and> c \<le> 90 then c + 32 else c)"

definition tag_space :: "nat \<Rightarrow> bool" where
  "tag_space c = (c = 32 \<or> c = 9 \<or> c = 10)"

definition ascii_space :: "nat \<Rightarrow> bool" where
  "ascii_space c = (c = 32 \<or> c = 10 \<or> c = 9 \<or> c = 12 \<or> c = 13)"

definition plain :: "nat \<Rightarrow> bool" where
  "plain c = (c \<noteq> 60 \<and> c \<noteq> 38)"

text \<open>The entities of the fragment and the character each stands for.\<close>

definition entity :: "pystr \<Rightarrow> nat option" where
  "entity name =
     (if name = str ''lt'' then Some 60
      else if name = str ''gt'' then Some 62
      else if name = str ''amp'' then Some 38
      else if name = str ''quot'' then Some 34
      else None)"

text \<open>Elements with no special treatment in the parser or the tree builder.\<close>

definition ordinary_tag :: "pystr \<Rightarrow> bool" where
  "ordinary_tag name =
     (name \<in> set (map str
        [''h1'', ''h2'', ''h3'', ''h4'', ''h5'', ''h6'', ''p'', ''a'', ''ul'', ''ol'', ''li'',
         ''b'', ''i'', ''em'', ''strong'', ''div'', ''span'']))"

text \<open>The events the parser hands to the tree builder.\<close>

datatype token = Data pystr | StartTag pystr "(pystr \<times> pystr) list" | EndTag pystr

text \<open>
  The attributes of a start tag and what follows its closing \<^verbatim>\<open>>\<close>: each attribute is
  whitespace, a name, \<^verbatim>\<open>=\<close> and a value in double or single quotes with no \<^verbatim>\<open>&\<close> in
  it; names are lower-cased and must differ.
\<close>

function lex_attrs :: "pystr \<Rightarrow> ((pystr \<times> pystr) list \<times> pystr) option" where
  "lex_attrs s =
     (case dropWhile tag_space s of
        [] \<Rightarrow> None
      | c # cs \<Rightarrow>
          if c = 62 then Some ([], cs)
          else if dropWhile tag_space s = s \<or> \<not> is_alpha c then None
          else
            (case dropWhile is_attr_name_char (c # cs) of
               e # q # s3 \<Rightarrow>
                 if e = 61 \<and> (q = 34 \<or> q = 39) then
                   (case dropWhile (\<lambda>x. x \<noteq> q) s3 of
                      [] \<Rightarrow> None
                    | q' # s5 \<Rightarrow>
                        if 38 \<in> set (takeWhile (\<lambda>x. x \<noteq> q) s3) then None
                        else
                          (case lex_attrs s5 of
                             None \<Rightarrow> None
                           | Some (attrs, rest) \<Rightarrow>
                               if map lower (takeWhile is_attr_name_char (c # cs))
                                    \<in> set (map fst attrs)
                               then None
                               else Some ((map lower (takeWhile is_attr_name_char (c # cs)),
                                           takeWhile (\<lambda>x. x \<noteq> q) s3) # attrs, rest)))
                 else None
             | _ \<Rightarrow> None))"
  by pat_completeness auto

lemma dropWhile_Cons_shorter: "dropWhile P xs = y # ys \<Longrightarrow> length ys < length xs"
proof -
  assume "dropWhile P xs = y # ys"
  then have "length (y # ys) \<le> length xs"
    using length_dropWhile_le [of P xs] by simp
  then show ?thesis by simp
qed

termination lex_attrs
proof (relation "measure length", goal_cases)
  case 1
  show ?case by simp
next
  case (2 s c cs e r q s3 q' s5)
  have "length s5 < length s3"
    using 2(7) by (rule dropWhile_Cons_shorter)
  moreover have "length (e # q # s3) \<le> length (c # cs)"
    using 2(4,5) length_dropWhile_le [of is_attr_name_char "c # cs"] by simp
  moreover have "length (c # cs) \<le> length s"
    using 2(1) length_dropWhile_le [of tag_space s] by simp
  ultimately show ?case by simp
qed

declare lex_attrs.simps [simp del]

lemma lex_attrs_shorter: "lex_attrs s = Some (attrs, rest) \<Longrightarrow> length rest < length s"
proof (induction s arbitrary: attrs rest rule: lex_attrs.induct)
  case (1 s)
  show ?case
  proof (cases "dropWhile tag_space s")
    case Nil
    with "1.prems" show ?thesis by (subst (asm) lex_attrs.simps) simp
  next
    case (Cons c cs)
    then have cs: "length cs < length s" by (rule dropWhile_Cons_shorter)
    show ?thesis
    proof (cases "c = 62")
      case True
      with "1.prems" Cons cs show ?thesis by (subst (asm) lex_attrs.simps) simp
    next
      case False
      with "1.prems" Cons obtain e q s3 q' s5 attrs' where
        ok: "\<not> (dropWhile tag_space s = s \<or> \<not> is_alpha c)" and
        name: "dropWhile is_attr_name_char (c # cs) = e # q # s3" and
        eq: "e = 61 \<and> (q = 34 \<or> q = 39)" and
        val: "dropWhile (\<lambda>x. x \<noteq> q) s3 = q' # s5" and
        amp: "38 \<notin> set (takeWhile (\<lambda>x. x \<noteq> q) s3)" and
        rec: "lex_attrs s5 = Some (attrs', rest)"
        by (subst (asm) lex_attrs.simps)
          (auto split: list.splits if_splits option.splits)
      have "length rest < length s5"
        using "1.IH" [OF Cons False ok name refl eq val amp rec] .
      moreover have "length s5 < length s3"
        using val by (rule dropWhile_Cons_shorter)
      moreover have "length (e # q # s3) \<le> length (c # cs)"
        using name length_dropWhile_le [of is_attr_name_char "c # cs"] by simp
      ultimately show ?thesis using cs by simp
    qed
  qed
qed

text \<open>
  The tokenizer. A start tag is \<^verbatim>\<open><\<close>, a name of letters and digits and the attributes;
  an end tag is \<^verbatim>\<open></\<close>, a name and \<^verbatim>\<open>>\<close>; names are lower-cased. A \<^verbatim>\<open><\<close> that is
  followed by anything but a letter, \<^verbatim>\<open>/\<close>, \<^verbatim>\<open>!\<close> or \<^verbatim>\<open>?\<close> is character data, and
  so is a \<^verbatim>\<open>&\<close> followed by anything but a letter or \<^verbatim>\<open>#\<close>.
\<close>

function tokenize :: "pystr \<Rightarrow> token list option" where
  "tokenize [] = Some []"
| "tokenize (c # cs) =
     (if c = 60 then
        (case cs of
           [] \<Rightarrow> None
         | d # ds \<Rightarrow>
             if is_alpha d then
               (case lex_attrs (dropWhile is_alnum cs) of
                  None \<Rightarrow> None
                | Some (attrs, rest) \<Rightarrow>
                    if ordinary_tag (map lower (takeWhile is_alnum cs))
                    then map_option (Cons (StartTag (map lower (takeWhile is_alnum cs)) attrs))
                           (tokenize rest)
                    else None)
             else if d = 47 then
               (case dropWhile is_alnum ds of
                  [] \<Rightarrow> None
                | g # rest \<Rightarrow>
                    if g = 62 \<and> ordinary_tag (map lower (takeWhile is_alnum ds))
                    then map_option (Cons (EndTag (map lower (takeWhile is_alnum ds))))
                           (tokenize rest)
                    else None)
             else if d = 33 \<or> d = 63 then None
             else map_option (Cons (Data [60])) (tokenize cs))
      else if c = 38 then
        (case cs of
           [] \<Rightarrow> None
         | d # ds \<Rightarrow>
             if is_alpha d then
               (case dropWhile is_alnum cs of
                  [] \<Rightarrow> None
                | g # rest \<Rightarrow>
                    (case entity (takeWhile is_alnum cs) of
                       None \<Rightarrow> None
                     | Some ch \<Rightarrow>
                         if g = 59 then map_option (Cons (Data [ch])) (tokenize rest)
                         else None))
             else if d = 35 then None
             else map_option (Cons (Data [38])) (tokenize cs))
      else map_option (Cons (Data (c # takeWhile plain cs))) (tokenize (dropWhile plain cs)))"
  by pat_completeness auto

termination tokenize
proof (relation "measure length", goal_cases)
  case 1
  show ?case by simp
next
  case (2 c cs d ds x attrs rest)
  from 2 have "lex_attrs (dropWhile is_alnum cs) = Some (attrs, rest)" by simp
  then have "length rest < length (dropWhile is_alnum cs)"
    by (rule lex_attrs_shorter)
  then show ?case
    using length_dropWhile_le [of is_alnum cs] by simp
next
  case (3 c cs d ds g rest)
  then have "length rest < length ds" by (metis dropWhile_Cons_shorter)
  with 3 show ?case by simp
next
  case (4 c cs d ds)
  then show ?case by simp
next
  case (5 c cs d ds g rest)
  then have "length rest < length cs" by (metis dropWhile_Cons_shorter)
  then show ?case by simp
next
  case (6 c cs d ds)
  then show ?case by simp
next
  case (7 c cs)
  show ?case
    using length_dropWhile_le [of plain cs] by simp
qed

declare tokenize.simps [simp del]

text \<open>
  The tree builder of BeautifulSoup: the stack of open tags (innermost first, each with
  the children it has so far), the children of the document, and the character data
  collected since the last tag.
\<close>

record builder =
  tagStack :: "(pystr \<times> (pystr \<times> pystr) list \<times> node list) list"
  root_children :: "node list"
  current_data :: pystr

text \<open>\<^verbatim>\<open>object_was_parsed\<close>: a finished node becomes the last child of the innermost open tag.\<close>

definition object_was_parsed :: "node \<Rightarrow> builder \<Rightarrow> builder" where
  "object_was_parsed obj b =
     (case tagStack b of
        [] \<Rightarrow> b\<lparr>root_children := root_children b @ [obj]\<rparr>
      | (name, attrs, children) # rest \<Rightarrow> b\<lparr>tagStack := (name, attrs, children @ [obj]) # rest\<rparr>)"

text \<open>
  \<^verbatim>\<open>endData\<close>: the collected character data become one string; a string of ASCII
  whitespace only becomes one newline if it has one, else one space.
\<close>

definition endData :: "builder \<Rightarrow> builder" where
  "endData b =
     (if current_data b = [] then b
      else
        (let d = current_data b;
             d = (if filter (\<lambda>c. \<not> ascii_space c) d = []
                  then (if 10 \<in> set d then [10] else [32]) else d)
         in object_was_parsed (NavigableString d) (b\<lparr>current_data := []\<rparr>)))"

definition popTag :: "builder \<Rightarrow> builder" where
  "popTag b =
     (case tagStack b of
        [] \<Rightarrow> b
      | (name, attrs, children) # rest \<Rightarrow>
          object_was_parsed (Tag name attrs children) (b\<lparr>tagStack := rest\<rparr>))"

text \<open>
  \<^verbatim>\<open>_popToTag\<close>: an end tag closes the innermost open tag of its name and every tag
  opened inside it; with no open tag of that name it does nothing.
\<close>

definition popToTag :: "pystr \<Rightarrow> builder \<Rightarrow> builder" where
  "popToTag name b =
     (if name \<in> set (map fst (tagStack b))
      then (popTag ^^ Suc (length (takeWhile (\<lambda>f. fst f \<noteq> name) (tagStack b)))) b
      else b)"

fun feed :: "token list \<Rightarrow> builder \<Rightarrow> builder" where
  "feed [] b = b"
| "feed (Data d # tokens) b = feed tokens (b\<lparr>current_data := current_data b @ d\<rparr>)"
| "feed (StartTag name attrs # tokens) b =
     feed tokens ((endData b)\<lparr>tagStack := (name, attrs, []) # tagStack (endData b)\<rparr>)"
| "feed (EndTag name # tokens) b = feed tokens (popToTag name (endData b))"

text \<open>At the end of the markup the data are flushed and every open tag is closed.\<close>

definition build_soup :: "token list \<Rightarrow> node list" where
  "build_soup tokens =
     (let b = endData (feed tokens \<lparr>tagStack = [], root_children = [], current_data = []\<rparr>)
      in root_children ((popTag ^^ length (tagStack b)) b))"

definition html_parser :: "pystr \<Rightarrow> node list" where
  "html_parser markup = (case tokenize markup of Some tokens \<Rightarrow> build_soup tokens | None \<Rightarrow> undefined)"

section \<open>Configuration, network and console\<close>

text \<open>
  The module-level constants read from the environment when the module is loaded.
  \<^verbatim>\<open>os.getenv\<close> gives \<^verbatim>\<open>None\<close> for a variable that is not set; \<^verbatim>\<open>X_VERSION\<close> has a
  default and is always a string.
\<close>

record config =
  GRANOLA_COOKIE :: "pystr option"
  CRAFT_TOKEN :: "pystr option"
  CRAFT_SPACE_ID :: "pystr option"
  X_DEVICE_ID :: "pystr option"
  X_WORKSPACE_ID :: "pystr option"
  X_VERSION :: pystr

text \<open>The \<^verbatim>\<open>json=\<close> argument of a request, and the request the program hands to \<^verbatim>\<open>requests\<close>.\<close>

datatype payload = DocumentId pystr | Blocks "block list" pystr

record request =
  req_method :: pystr
  req_url :: pystr
  req_headers :: "(pystr \<times> pystr option) list"
  req_json :: "payload option"

text \<open>
  What the lines inside a \<^verbatim>\<open>try\<close> give: the decoded JSON of the response, or an
  exception (from the transport, from \<^verbatim>\<open>raise_for_status()\<close> on a status that is not
  2xx, or from \<^verbatim>\<open>response.json()\<close>).
\<close>

datatype 'a outcome = Raised | Returned 'a

text \<open>
  The two services are the environment of the program: for a state \<open>'w\<close> of the world
  and a request, each endpoint gives an outcome and the next state. The theorems below
  hold for every such environment.
\<close>

record 'w network =
  documents_endpoint :: "'w \<Rightarrow> request \<Rightarrow> meeting list outcome \<times> 'w"
  panels_endpoint :: "'w \<Rightarrow> request \<Rightarrow> panel list outcome \<times> 'w"
  transcript_endpoint :: "'w \<Rightarrow> request \<Rightarrow> segment list option outcome \<times> 'w"
  craft_endpoint :: "'w \<Rightarrow> request \<Rightarrow> unit outcome \<times> 'w"

datatype exn = AttributeError

text \<open>The lines the program prints, and the trace of a run: prints and requests in order.\<close>

datatype message =
    StartingSync pystr
  | ErrorFetchingDocuments
  | ErrorFetchingPanels pystr
  | ErrorFetchingTranscript pystr
  | ErrorSendingToCraft
  | NoMeetingsFound pystr
  | FoundMeetings nat
  | Syncing pystr
  | SuccessfullySynced pystr
  | FailedToSync pystr

datatype event = Print message | Http request

section \<open>Fetching from the meeting source\<close>

text \<open>
  \<^verbatim>\<open>get_headers()\<close>. \<^verbatim>\<open>GRANOLA_COOKIE.startswith\<close> raises \<^verbatim>\<open>AttributeError\<close> when the
  cookie is \<^verbatim>\<open>None\<close>.
\<close>

definition get_headers :: "config \<Rightarrow> exn + (pystr \<times> pystr option) list" where
  "get_headers cfg =
     (let headers =
        [(str ''Accept'', Some (str ''application/json'')),
         (str ''Content-Type'', Some (str ''application/json'')),
         (str ''X-Granola-Device-Id'', X_DEVICE_ID cfg),
         (str ''X-Granola-Workspace-Id'', X_WORKSPACE_ID cfg),
         (str ''X-Client-Version'', Some (X_VERSION cfg))]
      in case GRANOLA_COOKIE cfg of
           None \<Rightarrow> Inl AttributeError
         | Some cookie \<Rightarrow>
             if startswith cookie (str ''Bearer '')
             then Inr (headers @ [(str ''Authorization'', Some cookie)])
             else Inr (headers @ [(str ''Cookie'', Some cookie)]))"

text \<open>
  The three fetch functions return the value, the next state of the world and the events
  of the call. \<^verbatim>\<open>get_headers()\<close> is an argument of the call inside the \<^verbatim>\<open>try\<close>, so its
  exception is caught by the same handler, before any request is made.
\<close>

definition get_granola_documents ::
  "'w network \<Rightarrow> config \<Rightarrow> 'w \<Rightarrow> meeting list \<times> 'w \<times> event list" where
  "get_granola_documents net cfg w =
     (let url = str ''https://api.granola.ai/v1/get-documents''
      in case get_headers cfg of
           Inl e \<Rightarrow> ([], w, [Print ErrorFetchingDocuments])
         | Inr headers \<Rightarrow>
             (let req = \<lparr>req_method = str ''GET'', req_url = url, req_headers = headers,
                         req_json = None\<rparr>
              in case documents_endpoint net w req of
                   (Returned docs, w') \<Rightarrow> (docs, w', [Http req])
                 | (Raised, w') \<Rightarrow> ([], w', [Http req, Print ErrorFetchingDocuments])))"

definition get_document_panels ::
  "'w network \<Rightarrow> config \<Rightarrow> pystr \<Rightarrow> 'w \<Rightarrow> panel list \<times> 'w \<times> event list" where
  "get_document_panels net cfg document_id w =
     (let url = str ''https://api.granola.ai/v1/get-document-panels''
      in case get_headers cfg of
           Inl e \<Rightarrow> ([], w, [Print (ErrorFetchingPanels document_id)])
         | Inr headers \<Rightarrow>
             (let req = \<lparr>req_method = str ''POST'', req_url = url, req_headers = headers,
                         req_json = Some (DocumentId document_id)\<rparr>
              in case panels_endpoint net w req of
                   (Returned panels, w') \<Rightarrow> (panels, w', [Http req])
                 | (Raised, w') \<Rightarrow>
                     ([], w', [Http req, Print (ErrorFetchingPanels document_id)])))"

definition get_document_transcript ::
  "'w network \<Rightarrow> config \<Rightarrow> pystr \<Rightarrow> 'w \<Rightarrow> segment list option \<times> 'w \<times> event list" where
  "get_document_transcript net cfg document_id w =
     (let url = str ''https://api.granola.ai/v1/get-document-transcript''
      in case get_headers cfg of
           Inl e \<Rightarrow> (Some [], w, [Print (ErrorFetchingTranscript document_id)])
         | Inr headers \<Rightarrow>
             (let req = \<lparr>req_method = str ''POST'', req_url = url, req_headers = headers,
                         req_json = Some (DocumentId document_id)\<rparr>
              in case transcript_endpoint net w req of
                   (Returned segments, w') \<Rightarrow> (segments, w', [Http req])
                 | (Raised, w') \<Rightarrow>
                     (Some [], w', [Http req, Print (ErrorFetchingTranscript document_id)])))"

section \<open>Sending blocks to the destination\<close>

definition CRAFT_API_BASE :: "config \<Rightarrow> pystr" where
  "CRAFT_API_BASE cfg =
     str ''https://connect.craft.do/links/'' @ fmt_opt (CRAFT_SPACE_ID cfg) @ str ''/api/v1''"

text \<open>
  \<^verbatim>\<open>send_blocks_to_craft(blocks, target_date_str)\<close>. The result is \<^verbatim>\<open>None\<close> (the bare
  \<^verbatim>\<open>return\<close>), \<^verbatim>\<open>True\<close> or \<^verbatim>\<open>False\<close>.
\<close>

definition send_blocks_to_craft ::
  "'w network \<Rightarrow> config \<Rightarrow> block list \<Rightarrow> pystr \<Rightarrow> 'w \<Rightarrow> bool option \<times> 'w \<times> event list" where
  "send_blocks_to_craft net cfg blocks target_date_str w =
     (if blocks = [] then (None, w, [])
      else
        (let url = CRAFT_API_BASE cfg @ str ''/blocks'';
             headers =
               [(str ''Authorization'', Some (str ''Bearer '' @ fmt_opt (CRAFT_TOKEN cfg))),
                (str ''Content-Type'', Some (str ''application/json''))];
             req = \<lparr>req_method = str ''POST'', req_url = url, req_headers = headers,
                     req_json = Some (Blocks blocks target_date_str)\<rparr>
         in case craft_endpoint net w req of
              (Returned u, w') \<Rightarrow> (Some True, w', [Http req])
            | (Raised, w') \<Rightarrow> (Some False, w', [Http req, Print ErrorSendingToCraft])))"

section \<open>The run\<close>

text \<open>The blocks of one meeting, from what was fetched for it (the body of the loop).\<close>

definition build_meeting_blocks ::
  "(pystr \<Rightarrow> node list) \<Rightarrow> meeting \<Rightarrow> panel list \<Rightarrow> segment list option \<Rightarrow> block list" where
  "build_meeting_blocks parse doc panels transcript_segments =
     (let title = meeting_title doc;
          content_md = summary_content parse panels;
          transcript_text = format_transcript transcript_segments
      in meeting_blocks title content_md transcript_text)"

text \<open>The loop \<^verbatim>\<open>for doc in target_docs\<close> of \<^verbatim>\<open>main\<close>.\<close>

fun sync_meetings ::
  "'w network \<Rightarrow> config \<Rightarrow> (pystr \<Rightarrow> node list) \<Rightarrow> pystr \<Rightarrow> meeting list \<Rightarrow> 'w
     \<Rightarrow> 'w \<times> event list" where
  "sync_meetings net cfg parse yesterday_str [] w = (w, [])"
| "sync_meetings net cfg parse yesterday_str (doc # docs) w =
     (case get_document_panels net cfg (doc_id doc) w of (panels, w1, ev1) \<Rightarrow>
      case get_document_transcript net cfg (doc_id doc) w1 of (transcript_segments, w2, ev2) \<Rightarrow>
      case send_blocks_to_craft net cfg
             (build_meeting_blocks parse doc panels transcript_segments) yesterday_str w2
        of (success, w3, ev3) \<Rightarrow>
      case sync_meetings net cfg parse yesterday_str docs w3 of (w4, rest) \<Rightarrow>
        (w4,
         [Print (Syncing (meeting_title doc))] @ ev1 @ ev2 @ ev3
         @ [Print (if success = Some True then SuccessfullySynced (meeting_title doc)
                   else FailedToSync (meeting_title doc))]
         @ rest))"

definition header_block :: "pystr \<Rightarrow> block" where
  "header_block yesterday_str =
     Block (str ''text'') (Some (str ''h1''))
       ([9749, 65039] @ str '' Granola Meetings ('' @ yesterday_str @ str '')'') None"

text \<open>
  \<^verbatim>\<open>main()\<close>. The date \<^verbatim>\<open>date.today() - timedelta(days=1)\<close> comes from the clock of the
  machine and is a parameter. The result is the last state of the world and the trace.
\<close>

definition main ::
  "'w network \<Rightarrow> config \<Rightarrow> (pystr \<Rightarrow> node list) \<Rightarrow> date \<Rightarrow> 'w \<Rightarrow> 'w \<times> event list" where
  "main net cfg parse yesterday w =
     (let yesterday_str = isoformat yesterday
      in case get_granola_documents net cfg w of (docs, w1, ev1) \<Rightarrow>
         (let target_docs = filter_meetings_by_date docs yesterday
          in if target_docs = []
             then (w1, [Print (StartingSync yesterday_str)] @ ev1
                        @ [Print (NoMeetingsFound yesterday_str)])
             else
               (case send_blocks_to_craft net cfg [header_block yesterday_str] yesterday_str w1
                  of (sent, w2, ev2) \<Rightarrow>
                case sync_meetings net cfg parse yesterday_str target_docs w2
                  of (w3, ev3) \<Rightarrow>
                  (w3, [Print (StartingSync yesterday_str)] @ ev1
                        @ [Print (FoundMeetings (length target_docs))] @ ev2 @ ev3))))"

text \<open>The block lists submitted to the destination in a trace, in order.\<close>

fun submissions :: "event list \<Rightarrow> block list list" where
  "submissions [] = []"
| "submissions (Http req # evs) =
     (case req_json req of
        Some (Blocks blocks d) \<Rightarrow> blocks # submissions evs
      | _ \<Rightarrow> submissions evs)"
| "submissions (Print m # evs) = submissions evs"

section \<open>Example data\<close>

text \<open>
  A configuration, a date and an environment on which the theorems are evaluated: three
  meetings, two of them of the date; a list of panels for every meeting; a transcript of
  one segment. In this environment every fetch succeeds and every submission to the
  destination fails; the state of the world counts the requests.
\<close>

definition example_config :: config where
  "example_config =
     \<lparr>GRANOLA_COOKIE = Some (str ''Bearer abc''), CRAFT_TOKEN = Some (str ''token''),
      CRAFT_SPACE_ID = Some (str ''space''), X_DEVICE_ID = Some (str ''device''),
      X_WORKSPACE_ID = Some (str ''workspace''), X_VERSION = str ''6.462.1''\<rparr>"

definition example_date :: date where
  "example_date = \<lparr>year = 2024, month = 3, day = 7\<rparr>"

definition example_documents :: "meeting list" where
  "example_documents =
     [\<lparr>doc_id = str ''m1'', doc_title = Some (str ''Standup''),
       created_at = Some (str ''2024-03-07T09:00:00Z'')\<rparr>,
      \<lparr>doc_id = str ''m2'', doc_title = Some (str ''Review''),
       created_at = Some (str ''2024-03-06T15:00:00Z'')\<rparr>,
      \<lparr>doc_id = str ''m3'', doc_title = None,
       created_at = Some (str ''2024-03-07T16:30:00Z'')\<rparr>]"

definition example_panels :: "panel list" where
  "example_panels =
     [\<lparr>panel_title = Some (str ''Notes''), original_content = Some (str ''<p>n</p>'')\<rparr>,
      \<lparr>panel_title = Some (str ''Summary''),
       original_content = Some (str ''<h3>Title</h3><p>Body</p>'')\<rparr>,
      \<lparr>panel_title = Some (str ''Summary''), original_content = Some (str ''<p>late</p>'')\<rparr>]"

definition example_network :: "nat network" where
  "example_network =
     \<lparr>documents_endpoint = (\<lambda>w req. (Returned example_documents, Suc w)),
      panels_endpoint = (\<lambda>w req. (Returned example_panels, Suc w)),
      transcript_endpoint = (\<lambda>w req.
        (Returned (Some [\<lparr>seg_text = Some (str ''hi''),
                          seg_source = Some (str ''microphone'')\<rparr>]), Suc w)),
      craft_endpoint = (\<lambda>w req. (Raised, Suc w))\<rparr>"

section \<open>Vocabulary of the properties\<close>

text \<open>A run of three newlines somewhere in a string.\<close>

fun three_newlines :: "pystr \<Rightarrow> bool" where
  "three_newlines (a # b # c # s) = ((a = 10 \<and> b = 10 \<and> c = 10) \<or> three_newlines (b # c # s))"
| "three_newlines s = False"

text \<open>
  The characters of a document that can reach the text: its character data and the
  values of its \<^verbatim>\<open>href\<close> attributes.
\<close>

fun node_chars :: "node \<Rightarrow> nat set" where
  "node_chars (Tag name attrs children) =
     (case map_of attrs (str ''href'') of None \<Rightarrow> {} | Some v \<Rightarrow> set v)
     \<union> \<Union> (set (map node_chars children))"
| "node_chars (NavigableString s) = set s"
| "node_chars (Comment s) = {}"

definition soup_chars :: "node list \<Rightarrow> nat set" where
  "soup_chars soup = \<Union> (set (map node_chars soup))"

text \<open>The characters the conversion itself writes.\<close>

definition markup_chars :: "nat set" where
  "markup_chars = set (str ''# -[]()None'') \<union> {10}"

text \<open>
  What the conversion needs of a parser to be applied to its own output: a string with no
  \<^verbatim>\<open><\<close> and no \<^verbatim>\<open>&\<close> that does not start with whitespace is one string node.
\<close>

definition parses_plain_text :: "(pystr \<Rightarrow> node list) \<Rightarrow> bool" where
  "parses_plain_text parse =
     (\<forall>y. y \<noteq> [] \<and> \<not> isspace (hd y) \<and> 60 \<notin> set y \<and> 38 \<notin> set y
          \<longrightarrow> parse y = [NavigableString y])"

text \<open>The text one segment adds to the transcript.\<close>

definition segment_line :: "segment \<Rightarrow> pystr" where
  "segment_line seg = source_prefix seg @ trimmed_text seg @ [10, 10]"

section \<open>Properties of strings\<close>

lemma lstrip_no_leading_space:
  "s = [] \<or> \<not> isspace (hd s) \<Longrightarrow> lstrip s = s"
  by (cases s) (auto simp: lstrip_def)

lemma strip_is_rstrip:
  "s = [] \<or> \<not> isspace (hd s) \<Longrightarrow> strip s = rstrip s"
  by (simp add: strip_def lstrip_no_leading_space)

lemma startswith_iff_prefix: "startswith s p \<longleftrightarrow> prefix p s"
  unfolding startswith_def prefix_def
  by (metis append_eq_conv_conj append_take_drop_id)

lemma lstrip_no_space: "xs \<noteq> [] \<Longrightarrow> \<not> isspace (hd xs) \<Longrightarrow> lstrip xs = xs"
  by (cases xs) (auto simp: lstrip_def)

lemma rstrip_no_space: "xs \<noteq> [] \<Longrightarrow> \<not> isspace (last xs) \<Longrightarrow> rstrip xs = xs"
  by (cases xs rule: rev_cases) (auto simp: rstrip_def)

lemma rstrip_two_newlines: "rstrip (xs @ [10, 10]) = rstrip xs"
  by (simp add: rstrip_def isspace_def)

lemma strip_replicate_a: "strip (replicate n 97) = replicate n 97"
  by (cases "n = 0") (simp_all add: strip_def lstrip_def rstrip_no_space lstrip_no_space isspace_def rstrip_def)

section \<open>Properties of the transcript formatter\<close>

lemma format_loop_concat:
  "format_loop segs acc =
     acc @ concat (map segment_line (filter (\<lambda>seg. trimmed_text seg \<noteq> []) segs))"
  by (induction segs arbitrary: acc) (simp_all add: segment_line_def Let_def)

lemma source_prefix_no_space:
  "source_prefix seg \<noteq> [] \<and> \<not> isspace (hd (source_prefix seg))"
  by (simp add: source_prefix_def Let_def microphone_prefix_def device_prefix_def isspace_def)

lemma concat_lines_no_leading_space:
  "concat (map segment_line segs) = [] \<or> \<not> isspace (hd (concat (map segment_line segs)))"
proof (cases segs)
  case Nil
  then show ?thesis by simp
next
  case (Cons seg rest)
  have "hd (concat (map segment_line (seg # rest))) = hd (source_prefix seg)"
    using source_prefix_no_space [of seg] by (simp add: segment_line_def)
  with Cons show ?thesis
    using source_prefix_no_space [of seg] by simp
qed

text \<open>
  Claim C7. An absent or empty segment sequence gives "No transcript available.";
  otherwise the result is the concatenation, in input order, of prefix, trimmed text and
  two newlines for every segment whose trimmed text is not empty, with trailing whitespace
  removed; one microphone segment "hi" gives the microphone glyph, a space and "hi".
\<close>

theorem format_transcript_spec:
  "format_transcript None = str ''No transcript available.'' \<and>
   format_transcript (Some segs) =
     (if segs = [] then str ''No transcript available.''
      else rstrip (concat (map (\<lambda>seg. source_prefix seg @ trimmed_text seg @ [10, 10])
             (filter (\<lambda>seg. trimmed_text seg \<noteq> []) segs)))) \<and>
   source_prefix seg =
     (if seg_source seg = Some (str ''microphone'') then [127897, 65039, 32]
      else [128187, 32]) \<and>
   format_transcript (Some [\<lparr>seg_text = Some (str ''hi''), seg_source = Some (str ''microphone'')\<rparr>])
     = [127897, 65039, 32] @ str ''hi''"
proof -
  let ?keep = "filter (\<lambda>seg. trimmed_text seg \<noteq> []) segs"
  have lines: "(\<lambda>seg. source_prefix seg @ trimmed_text seg @ [10, 10]) = segment_line"
    by (simp add: segment_line_def fun_eq_iff)
  have "strip (format_loop segs []) = rstrip (concat (map segment_line ?keep))"
    using concat_lines_no_leading_space [of ?keep]
    by (simp add: format_loop_concat strip_is_rstrip)
  then have general: "format_transcript (Some segs) =
     (if segs = [] then str ''No transcript available.''
      else rstrip (concat (map (\<lambda>seg. source_prefix seg @ trimmed_text seg @ [10, 10]) ?keep)))"
    by (simp add: format_transcript_def no_transcript_def lines)
  have absent: "format_transcript None = str ''No transcript available.''"
    by (simp add: format_transcript_def no_transcript_def)
  have pre: "source_prefix seg =
     (if seg_source seg = Some (str ''microphone'') then [127897, 65039, 32]
      else [128187, 32])"
    by (cases "seg_source seg")
      (simp_all add: source_prefix_def microphone_prefix_def device_prefix_def str_def)
  have hi: "format_transcript
      (Some [\<lparr>seg_text = Some (str ''hi''), seg_source = Some (str ''microphone'')\<rparr>])
      = [127897, 65039, 32] @ str ''hi''"
    by (simp add: format_transcript_def trimmed_text_def source_prefix_def
        microphone_prefix_def strip_def lstrip_def rstrip_def isspace_def str_def)
  from absent general pre hi show ?thesis by blast
qed

section \<open>Properties of the blocks of one meeting\<close>

lemma transcript_markdown_at_limit:
  "length t = 50000 \<Longrightarrow> transcript_markdown t = t @ truncation_suffix"
  by (simp add: transcript_markdown_def)

lemma transcript_markdown_longer:
  "50000 < length t \<Longrightarrow> transcript_markdown t = take 50000 t @ truncation_suffix"
  by (simp add: transcript_markdown_def)

lemma transcript_markdown_shorter:
  "length t < 50000 \<Longrightarrow> transcript_markdown t = t"
  by (simp add: transcript_markdown_def)

lemma format_one_microphone_segment:
  assumes "0 < n"
  shows "format_transcript
      (Some [\<lparr>seg_text = Some (replicate n 97), seg_source = Some (str ''microphone'')\<rparr>])
     = microphone_prefix @ replicate n 97"
proof -
  let ?t = "microphone_prefix @ replicate n (97::nat)"
  have "lstrip (?t @ [10, 10]) = ?t @ [10, 10]"
    by (rule lstrip_no_space) (simp_all add: microphone_prefix_def isspace_def)
  moreover have "rstrip ((microphone_prefix @ replicate n 97) @ [10, 10]) = ?t"
    unfolding rstrip_two_newlines using assms
    by (intro rstrip_no_space) (simp_all add: isspace_def)
  ultimately have "strip (?t @ [10, 10]) = ?t"
    by (simp add: strip_def)
  with assms show ?thesis
    by (simp add: format_transcript_def trimmed_text_def strip_replicate_a source_prefix_def)
qed

text \<open>
  Claim C1. A transcript longer than 50,000 characters is cut to its first 50,000
  characters and gets the suffix (\<open>transcript_markdown_longer\<close>), and one shorter than
  50,000 is unchanged (\<open>transcript_markdown_shorter\<close>). At exactly 50,000 characters the
  test \<^verbatim>\<open>len(transcript_text) < 50000\<close> is false: the text, of which nothing is cut,
  still gets the suffix. The transcript of one microphone segment of 49,997 letters
  \<^verbatim>\<open>a\<close> has 50,000 characters, and this is its block.
\<close>

theorem transcript_of_exactly_50000_gets_suffix:
  "length (format_transcript
      (Some [\<lparr>seg_text = Some (replicate 49997 97), seg_source = Some (str ''microphone'')\<rparr>]))
     = 50000 \<and>
   transcript_markdown (format_transcript
      (Some [\<lparr>seg_text = Some (replicate 49997 97), seg_source = Some (str ''microphone'')\<rparr>]))
     = [127897, 65039, 32] @ replicate 49997 97
       @ [10, 10] @ str ''... (transcript too long, truncated)''"
proof -
  have f: "format_transcript
      (Some [\<lparr>seg_text = Some (replicate 49997 97), seg_source = Some (str ''microphone'')\<rparr>])
     = microphone_prefix @ replicate 49997 97"
    by (rule format_one_microphone_segment) simp
  have l: "length (microphone_prefix @ replicate 49997 (97::nat)) = 50000"
    by (simp add: microphone_prefix_def)
  show ?thesis
    unfolding f using l
    by (simp add: transcript_markdown_at_limit microphone_prefix_def truncation_suffix_def)
qed

text \<open>
  Claim C9. For every meeting, every list of panels and every transcript (absent, empty
  or not), the block group has exactly four blocks in this order: the heading-2 block
  with the title, "Untitled Meeting" when the title is absent or empty; the text block
  with the summary content; the page block "Full Transcript" with exactly one nested text
  block holding the transcript content; the text block "---".
\<close>

theorem meeting_block_group:
  "build_meeting_blocks parse doc panels transcript_segments =
     [Block (str ''text'') (Some (str ''h2''))
        (case doc_title doc of
           None \<Rightarrow> str ''Untitled Meeting''
         | Some t \<Rightarrow> if t = [] then str ''Untitled Meeting'' else t) None,
      Block (str ''text'') None (summary_content parse panels) None,
      Block (str ''page'') (Some (str ''card'')) ([128196] @ str '' Full Transcript'')
        (Some [Block (str ''text'') None
                 (transcript_markdown (format_transcript transcript_segments)) None]),
      Block (str ''text'') None (str ''---'') None] \<and>
   length (build_meeting_blocks parse doc panels transcript_segments) = 4"
  by (simp add: build_meeting_blocks_def meeting_blocks_def meeting_title_def
      untitled_meeting_def full_transcript_title_def split: option.splits)

section \<open>Properties of the meeting filter\<close>

text \<open>
  Claim C8. For every sequence of meetings and every date, the filter returns exactly
  the meetings whose \<^verbatim>\<open>created_at\<close> has the ISO date of the target date as a prefix, as a
  subsequence of the input in its order.
\<close>

theorem filter_meetings_by_date_spec:
  "filter_meetings_by_date meetings target_date =
     filter (\<lambda>m. prefix (isoformat target_date) (case created_at m of None \<Rightarrow> [] | Some c \<Rightarrow> c))
       meetings \<and>
   subseq (filter_meetings_by_date meetings target_date) meetings \<and>
   isoformat \<lparr>year = 2024, month = 3, day = 7\<rparr> = str ''2024-03-07''"
  by (simp add: filter_meetings_by_date_def startswith_iff_prefix isoformat_def digit_def str_def)

section \<open>Properties of the submission\<close>

text \<open>
  Claim C4. For an empty block list \<^verbatim>\<open>send_blocks_to_craft\<close> makes no request and
  changes nothing, but its result is \<^verbatim>\<open>None\<close> (the bare \<^verbatim>\<open>return\<close>), not \<^verbatim>\<open>True\<close>.
\<close>

theorem send_no_blocks_returns_None:
  "send_blocks_to_craft net cfg [] target_date_str w = (None, w, [])"
  by (simp add: send_blocks_to_craft_def)

section \<open>Properties of the conversion\<close>

lemma three_newlines_iff_sublist: "three_newlines s \<longleftrightarrow> sublist [10, 10, 10] s"
  by (induction s rule: three_newlines.induct) (auto simp: sublist_Cons_right)

lemma three_newlines_Cons_other: "c \<noteq> 10 \<Longrightarrow> three_newlines (c # r) = three_newlines r"
  by (cases r rule: three_newlines.cases) auto

lemma three_newlines_Cons_Cons_other:
  "c \<noteq> 10 \<Longrightarrow> three_newlines (a # c # r) = three_newlines r"
  by (cases r) (simp_all add: three_newlines_Cons_other)

lemma three_newlines_short_run:
  assumes "\<not> three_newlines r" "c \<noteq> 10" "k \<le> 2"
  shows "\<not> three_newlines (replicate k 10 @ c # r)"
proof -
  from assms(3) consider "k = 0" | "k = 1" | "k = 2" by linarith
  then show ?thesis
  proof cases
    case 1
    with assms show ?thesis by (simp add: three_newlines_Cons_other)
  next
    case 2
    with assms show ?thesis by (simp add: three_newlines_Cons_Cons_other)
  next
    case 3
    then have "replicate k 10 = [10, 10::nat]" by (simp add: numeral_2_eq_2)
    with assms show ?thesis by (simp add: three_newlines_Cons_Cons_other)
  qed
qed

lemma three_newlines_replicate: "k \<le> 2 \<Longrightarrow> \<not> three_newlines (replicate k 10)"
proof -
  assume "k \<le> 2"
  then consider "k = 0" | "k = 1" | "k = 2" by linarith
  then show ?thesis by cases (simp_all add: numeral_2_eq_2)
qed

lemma sub_newlines_no_run: "\<not> three_newlines (sub_newlines n s)"
proof (induction s arbitrary: n)
  case Nil
  show ?case by (simp add: emit_newlines_def three_newlines_replicate)
next
  case (Cons c cs)
  show ?case
  proof (cases "c = 10")
    case True
    with Cons show ?thesis by simp
  next
    case False
    have "\<not> three_newlines (replicate (if 3 \<le> n then 2 else n) 10 @ c # sub_newlines 0 cs)"
      by (rule three_newlines_short_run) (use False Cons in auto)
    with False show ?thesis by (simp add: emit_newlines_def)
  qed
qed

lemma sublist_strip: "sublist (strip s) s"
proof -
  have "suffix (lstrip s) s"
    by (simp add: lstrip_def suffix_dropWhile)
  moreover have "prefix (rstrip (lstrip s)) (lstrip s)"
  proof -
    have "rev (lstrip s) = takeWhile isspace (rev (lstrip s)) @ dropWhile isspace (rev (lstrip s))"
      by simp
    then have "lstrip s = rstrip (lstrip s) @ rev (takeWhile isspace (rev (lstrip s)))"
      unfolding rstrip_def by (metis rev_append rev_rev_ident)
    then show ?thesis by (metis prefixI)
  qed
  ultimately show ?thesis
    unfolding strip_def
    by (meson prefix_imp_sublist suffix_imp_sublist sublist_order.order_trans)
qed

lemma soup_to_markdown_no_run: "\<not> sublist [10, 10, 10] (soup_to_markdown soup)"
proof
  assume "sublist [10, 10, 10] (soup_to_markdown soup)"
  then obtain t where "sublist [10, 10, 10] (strip (collapse_newlines t))"
    by (auto simp: soup_to_markdown_def Let_def)
  then have "sublist [10, 10, 10] (collapse_newlines t)"
    using sublist_strip sublist_order.order_trans by blast
  then show False
    by (simp add: collapse_newlines_def sub_newlines_no_run flip: three_newlines_iff_sublist)
qed

lemma get_text_chars: "set (get_text t) \<subseteq> node_chars t"
  by (induction t rule: get_text.induct) auto

lemma render_chars:
  "set (render_h3 t) \<subseteq> node_chars t \<union> markup_chars"
  "set (render_li t) \<subseteq> node_chars t \<union> markup_chars"
  "set (render_p t) \<subseteq> node_chars t \<union> markup_chars"
  using get_text_chars [of t]
  by (auto simp: render_h3_def render_li_def render_p_def markup_chars_def str_def)

lemma render_a_chars: "set (render_a t) \<subseteq> node_chars t \<union> markup_chars"
proof (cases t)
  case (Tag n attrs cs)
  then show ?thesis
    using get_text_chars [of t]
    by (auto simp: render_a_def get_attr_def fmt_opt_def markup_chars_def str_def
        split: option.splits)
next
  case (NavigableString s)
  then show ?thesis
    by (auto simp: render_a_def get_attr_def fmt_opt_def markup_chars_def str_def)
next
  case (Comment s)
  then show ?thesis
    by (auto simp: render_a_def get_attr_def fmt_opt_def markup_chars_def str_def)
qed

lemma replace_tags_chars:
  assumes "\<And>t. set (render t) \<subseteq> node_chars t \<union> markup_chars"
  shows "node_chars (replace_tags name render t) \<subseteq> node_chars t \<union> markup_chars"
proof (induction t)
  case (Tag n attrs cs)
  show ?case
  proof (cases "n = name")
    case True
    then show ?thesis using assms [of "Tag n attrs cs"] by simp
  next
    case False
    then show ?thesis using Tag by (auto split: option.splits)
  qed
qed simp_all

lemma replace_pass_chars:
  assumes "\<And>t. set (render t) \<subseteq> node_chars t \<union> markup_chars"
  shows "soup_chars (map (replace_tags name render) soup) \<subseteq> soup_chars soup \<union> markup_chars"
  using replace_tags_chars [OF assms] by (fastforce simp: soup_chars_def)

lemma soup_get_text_chars: "set (soup_get_text soup) \<subseteq> soup_chars soup"
  using get_text_chars by (fastforce simp: soup_get_text_def soup_chars_def)

lemma sub_newlines_chars: "set (sub_newlines n s) \<subseteq> insert 10 (set s)"
  by (induction s arbitrary: n) (auto simp: emit_newlines_def)

lemma strip_chars: "set (strip s) \<subseteq> set s"
  using sublist_strip set_mono_sublist by blast

lemma soup_to_markdown_chars: "set (soup_to_markdown soup) \<subseteq> soup_chars soup \<union> markup_chars"
proof -
  let ?s1 = "map (replace_tags (str ''h3'') render_h3) soup"
  let ?s2 = "map (replace_tags (str ''li'') render_li) ?s1"
  let ?s3 = "map (replace_tags (str ''p'') render_p) ?s2"
  let ?s4 = "map (replace_tags (str ''a'') render_a) ?s3"
  have 1: "soup_chars ?s1 \<subseteq> soup_chars soup \<union> markup_chars"
    by (rule replace_pass_chars) (rule render_chars)
  have 2: "soup_chars ?s2 \<subseteq> soup_chars ?s1 \<union> markup_chars"
    by (rule replace_pass_chars) (rule render_chars)
  have 3: "soup_chars ?s3 \<subseteq> soup_chars ?s2 \<union> markup_chars"
    by (rule replace_pass_chars) (rule render_chars)
  have 4: "soup_chars ?s4 \<subseteq> soup_chars ?s3 \<union> markup_chars"
    by (rule replace_pass_chars) (rule render_a_chars)
  have "soup_to_markdown soup = strip (sub_newlines 0 (soup_get_text ?s4))"
    by (simp only: soup_to_markdown_def Let_def collapse_newlines_def)
  then have "set (soup_to_markdown soup) \<subseteq> set (sub_newlines 0 (soup_get_text ?s4))"
    by (simp add: strip_chars)
  also have "\<dots> \<subseteq> insert 10 (set (soup_get_text ?s4))"
    by (rule sub_newlines_chars)
  also have "\<dots> \<subseteq> insert 10 (soup_chars ?s4)"
    using soup_get_text_chars by blast
  also have "\<dots> \<subseteq> soup_chars soup \<union> markup_chars"
    using 1 2 3 4 by (auto simp: markup_chars_def)
  finally show ?thesis .
qed

lemma tokenize_plain:
  assumes "y \<noteq> []" "60 \<notin> set y" "38 \<notin> set y"
  shows "tokenize y = Some [Data y]"
proof -
  from assms(1) obtain c cs where y: "y = c # cs" by (cases y) auto
  have "\<forall>x \<in> set cs. plain x"
    using assms(2,3) y by (auto simp: plain_def)
  then have tw: "takeWhile plain cs = cs" and dw: "dropWhile plain cs = []"
    by simp_all
  from assms(2,3) y have "c \<noteq> 60" "c \<noteq> 38" by auto
  then show ?thesis
    unfolding y by (simp add: tokenize.simps tw dw del: dropWhile_eq_Nil_conv takeWhile_eq_all_conv)
qed

lemma html_parser_plain_text: "parses_plain_text html_parser"
  unfolding parses_plain_text_def
proof (intro allI impI, elim conjE)
  fix y :: pystr
  assume ne: "y \<noteq> []" and hd: "\<not> isspace (hd y)" and lt: "60 \<notin> set y" and amp: "38 \<notin> set y"
  from ne hd have "\<not> ascii_space (hd y)"
    by (auto simp: ascii_space_def isspace_def)
  with ne have "filter (\<lambda>c. \<not> ascii_space c) y \<noteq> []"
    by (cases y) auto
  with ne show "html_parser y = [NavigableString y]"
    by (simp add: html_parser_def tokenize_plain [OF ne lt amp] build_soup_def endData_def
        object_was_parsed_def Let_def)
qed

lemma rstrip_prefix: "prefix (rstrip s) s"
proof -
  have "rev s = takeWhile isspace (rev s) @ dropWhile isspace (rev s)"
    by simp
  then have "s = rstrip s @ rev (takeWhile isspace (rev s))"
    unfolding rstrip_def by (metis rev_append rev_rev_ident)
  then show ?thesis by (metis prefixI)
qed

lemma strip_no_leading_space:
  assumes "strip s \<noteq> []"
  shows "\<not> isspace (hd (strip s))"
proof -
  from assms have ne: "lstrip s \<noteq> []"
    by (auto simp: strip_def rstrip_def)
  then have "\<not> isspace (hd (lstrip s))"
    unfolding lstrip_def by (rule hd_dropWhile)
  moreover have "hd (strip s) = hd (lstrip s)"
  proof -
    obtain zs where "lstrip s = rstrip (lstrip s) @ zs"
      using rstrip_prefix [of "lstrip s"] by (auto simp: prefix_def)
    then have "hd (lstrip s) = hd (rstrip (lstrip s) @ zs)" by simp
    also have "\<dots> = hd (rstrip (lstrip s))"
      using assms by (simp add: strip_def)
    finally show ?thesis by (simp add: strip_def)
  qed
  ultimately show ?thesis by simp
qed

lemma rstrip_idem: "rstrip (rstrip s) = rstrip s"
  by (simp add: rstrip_def)

lemma strip_idem: "strip (strip s) = strip s"
proof (cases "strip s = []")
  case True
  have "strip [] = []" by (simp add: strip_def lstrip_def rstrip_def)
  with True show ?thesis by simp
next
  case False
  then have l: "lstrip (strip s) = strip s"
    using strip_no_leading_space [OF False] by (intro lstrip_no_space)
  have r: "rstrip (strip s) = strip s"
    by (simp add: strip_def rstrip_idem)
  show ?thesis
    by (simp only: strip_def [of "strip s"] l r)
qed

lemma three_newlines_replicate_ge:
  "3 \<le> n \<Longrightarrow> sublist [10, 10, 10] (replicate n (10::nat) @ s)"
proof -
  assume "3 \<le> n"
  then obtain m where "n = 3 + m" by (metis le_Suc_ex)
  then have "replicate n (10::nat) @ s = [10, 10, 10] @ (replicate m 10 @ s)"
    by (simp add: replicate_add numeral_3_eq_3)
  then show ?thesis by (metis sublist_appendI append_Nil)
qed

lemma sub_newlines_fixed:
  "\<not> sublist [10, 10, 10] (replicate n 10 @ s) \<Longrightarrow> sub_newlines n s = replicate n 10 @ s"
proof (induction s arbitrary: n)
  case Nil
  then have "\<not> 3 \<le> n" using three_newlines_replicate_ge [of n "[]"] by auto
  then show ?case by (simp add: emit_newlines_def)
next
  case (Cons c cs)
  have n: "\<not> 3 \<le> n" using Cons.prems three_newlines_replicate_ge by blast
  show ?case
  proof (cases "c = 10")
    case True
    have e: "replicate (Suc n) 10 @ cs = replicate n 10 @ c # cs"
      using True by (simp add: replicate_app_Cons_same)
    have "\<not> sublist [10, 10, 10] (replicate (Suc n) 10 @ cs)"
      unfolding e by (rule Cons.prems)
    then have ih: "sub_newlines (Suc n) cs = replicate (Suc n) 10 @ cs"
      by (rule Cons.IH)
    have "sub_newlines n (c # cs) = sub_newlines (Suc n) cs"
      using True by simp
    also note ih
    also note e
    finally show ?thesis .
  next
    case False
    have "replicate n 10 @ c # cs = (replicate n 10 @ [c]) @ cs @ []"
      by simp
    then have "sublist cs (replicate n 10 @ c # cs)"
      unfolding sublist_def by blast
    then have "\<not> sublist [10, 10, 10] cs"
      using Cons.prems sublist_order.order_trans by blast
    then have "\<not> sublist [10, 10, 10] (replicate 0 10 @ cs)"
      by simp
    then have "sub_newlines 0 cs = replicate 0 10 @ cs"
      by (rule Cons.IH)
    then have r: "sub_newlines 0 cs = cs" by simp
    have "emit_newlines n = replicate n 10"
      using n by (simp add: emit_newlines_def)
    with False r show ?thesis by simp
  qed
qed

lemma soup_to_markdown_string: "soup_to_markdown [NavigableString y] = strip (collapse_newlines y)"
  by (simp add: soup_to_markdown_def soup_get_text_def)

text \<open>Evaluating the model of the parser and the conversion on concrete markup.\<close>

lemmas char_class_defs = is_alpha_def is_alnum_def is_attr_name_char_def lower_def tag_space_def
  ascii_space_def plain_def entity_def ordinary_tag_def str_def

lemmas parser_defs = html_parser_def tokenize.simps lex_attrs.simps build_soup_def endData_def
  popTag_def popToTag_def object_was_parsed_def Let_def char_class_defs

lemmas markdown_defs = html_to_markdown_def soup_to_markdown_def soup_get_text_def
  render_h3_def render_li_def render_p_def render_a_def get_attr_def fmt_opt_def
  collapse_newlines_def emit_newlines_def strip_def lstrip_def rstrip_def isspace_def str_def Let_def

lemma convert_example_heading:
  "html_to_markdown html_parser (str ''<h3>Title</h3><p>Body</p>'') = str ''### Title'' @ [10] @ str ''Body''"
  by (simp add: parser_defs markdown_defs)

lemma convert_escaped_tag: "html_to_markdown html_parser (str ''&lt;b&gt;x'') = str ''<b>x''"
  by (simp add: parser_defs markdown_defs)

lemma convert_tag: "html_to_markdown html_parser (str ''<b>x'') = str ''x''"
  by (simp add: parser_defs markdown_defs)

text \<open>
  Claim C5. For every parser and every input, the output has no run of three or more
  newlines. It can hold \<^verbatim>\<open><\<close> and \<^verbatim>\<open>>\<close>: nothing escapes them, and character data or
  an \<^verbatim>\<open>href\<close> value that holds one passes it on (\<^verbatim>\<open>a &lt; b > c\<close> gives
  \<^verbatim>\<open>a < b > c\<close>). What holds is that every \<^verbatim>\<open><\<close> or \<^verbatim>\<open>>\<close> of the output is a character
  of the character data or of an \<^verbatim>\<open>href\<close> value of the parsed document: the tags
  themselves never reach the output.
\<close>

theorem html_to_markdown_output:
  "\<not> sublist [10, 10, 10] (html_to_markdown parse html_content) \<and>
   (\<forall>c \<in> set (html_to_markdown parse html_content).
      c = 60 \<or> c = 62 \<longrightarrow> c \<in> soup_chars (parse html_content))"
proof -
  have "60 \<notin> markup_chars" "62 \<notin> markup_chars"
    by (simp_all add: markup_chars_def str_def)
  then show ?thesis
    using soup_to_markdown_chars [of "parse html_content"] soup_to_markdown_no_run
    by (auto simp: html_to_markdown_def)
qed

theorem html_to_markdown_output_witness:
  "\<not> sublist [10, 10, 10] (html_to_markdown html_parser (str ''a &lt; b > c'')) \<and>
   62 \<in> set (html_to_markdown html_parser (str ''a &lt; b > c'')) \<and>
   62 \<in> soup_chars (html_parser (str ''a &lt; b > c'')) \<and>
   60 \<in> soup_chars (html_parser (str ''a &lt; b > c''))"
proof -
  have "62 \<in> set (html_to_markdown html_parser (str ''a &lt; b > c''))"
    and "60 \<in> set (html_to_markdown html_parser (str ''a &lt; b > c''))"
    by (simp_all add: parser_defs markdown_defs)
  with html_to_markdown_output [of html_parser "str ''a &lt; b > c''"]
  show ?thesis by blast
qed

theorem html_to_markdown_keeps_angle_brackets:
  "html_to_markdown html_parser (str ''a &lt; b > c'') = str ''a < b > c'' \<and>
   60 \<in> set (html_to_markdown html_parser (str ''a &lt; b > c'')) \<and>
   62 \<in> set (html_to_markdown html_parser (str ''a &lt; b > c''))"
  by (simp add: parser_defs markdown_defs)

text \<open>
  Claim C6. The conversion is not idempotent: \<^verbatim>\<open>&lt;b&gt;x\<close> gives \<^verbatim>\<open><b>x\<close>, which
  gives \<^verbatim>\<open>x\<close>. It is idempotent on every input whose output holds no \<^verbatim>\<open><\<close> and no
  \<^verbatim>\<open>&\<close>, for every parser that reads such a string as one string node.
\<close>

theorem html_to_markdown_idempotent_on_plain_output:
  assumes "parses_plain_text parse"
    and "60 \<notin> set (html_to_markdown parse x)"
    and "38 \<notin> set (html_to_markdown parse x)"
  shows "html_to_markdown parse (html_to_markdown parse x) = html_to_markdown parse x"
proof (cases "html_to_markdown parse x = []")
  case True
  then show ?thesis by (simp add: html_to_markdown_def)
next
  case False
  let ?y = "html_to_markdown parse x"
  from False have y: "?y = soup_to_markdown (parse x)"
    by (simp add: html_to_markdown_def split: if_splits)
  then obtain t where t: "?y = strip t"
    by (auto simp: soup_to_markdown_def Let_def)
  have "\<not> isspace (hd ?y)"
    using False strip_no_leading_space [of t] t by simp
  with assms False have "parse ?y = [NavigableString ?y]"
    by (simp add: parses_plain_text_def)
  then have "html_to_markdown parse ?y = strip (collapse_newlines ?y)"
    using False by (simp add: html_to_markdown_def [of parse ?y] soup_to_markdown_string)
  moreover have "collapse_newlines ?y = ?y"
    unfolding collapse_newlines_def
    using sub_newlines_fixed [of 0 ?y] soup_to_markdown_no_run [of "parse x"] y by simp
  moreover have "strip ?y = ?y"
    using t strip_idem [of t] by simp
  ultimately show ?thesis by simp
qed

theorem html_to_markdown_idempotent_witness:
  "parses_plain_text html_parser \<and>
   60 \<notin> set (html_to_markdown html_parser (str ''<h3>Title</h3><p>Body</p>'')) \<and>
   38 \<notin> set (html_to_markdown html_parser (str ''<h3>Title</h3><p>Body</p>'')) \<and>
   html_to_markdown html_parser (html_to_markdown html_parser (str ''<h3>Title</h3><p>Body</p>''))
     = str ''### Title'' @ [10] @ str ''Body''"
proof -
  have 1: "60 \<notin> set (html_to_markdown html_parser (str ''<h3>Title</h3><p>Body</p>''))"
    unfolding convert_example_heading by (simp add: str_def)
  have 2: "38 \<notin> set (html_to_markdown html_parser (str ''<h3>Title</h3><p>Body</p>''))"
    unfolding convert_example_heading by (simp add: str_def)
  from html_to_markdown_idempotent_on_plain_output [OF html_parser_plain_text 1 2]
    html_parser_plain_text 1 2 convert_example_heading
  show ?thesis by simp
qed

theorem html_to_markdown_not_idempotent:
  "html_to_markdown html_parser (html_to_markdown html_parser (str ''&lt;b&gt;x'')) = str ''x'' \<and>
   html_to_markdown html_parser (str ''&lt;b&gt;x'') = str ''<b>x'' \<and>
   html_to_markdown html_parser (html_to_markdown html_parser (str ''&lt;b&gt;x''))
     \<noteq> html_to_markdown html_parser (str ''&lt;b&gt;x'')"
  by (simp add: convert_escaped_tag convert_tag) (simp add: str_def)

section \<open>Properties of the run\<close>

lemma submissions_append: "submissions (xs @ ys) = submissions xs @ submissions ys"
  by (induction xs rule: submissions.induct) (auto split: option.splits payload.splits)

lemma get_document_panels_submits_nothing:
  "get_document_panels net cfg i w = (panels, w', evs) \<Longrightarrow> submissions evs = []"
  by (auto simp: get_document_panels_def Let_def split: sum.splits prod.splits outcome.splits)

lemma get_document_transcript_submits_nothing:
  "get_document_transcript net cfg i w = (segs, w', evs) \<Longrightarrow> submissions evs = []"
  by (auto simp: get_document_transcript_def Let_def split: sum.splits prod.splits outcome.splits)

lemma get_granola_documents_submits_nothing:
  "get_granola_documents net cfg w = (docs, w', evs) \<Longrightarrow> submissions evs = []"
  by (auto simp: get_granola_documents_def Let_def split: sum.splits prod.splits outcome.splits)

lemma send_blocks_submits_once:
  "blocks \<noteq> [] \<Longrightarrow> send_blocks_to_craft net cfg blocks d w = (r, w', evs) \<Longrightarrow>
   submissions evs = [blocks]"
  by (auto simp: send_blocks_to_craft_def Let_def split: prod.splits outcome.splits)

lemma build_meeting_blocks_not_empty: "build_meeting_blocks parse doc panels segs \<noteq> []"
  by (simp add: build_meeting_blocks_def meeting_blocks_def)

lemma sync_meetings_submissions:
  "sync_meetings net cfg parse d docs w = (w', evs) \<Longrightarrow>
   length (submissions evs) = length docs \<and>
   map hd (submissions evs) =
     map (\<lambda>doc. Block (str ''text'') (Some (str ''h2'')) (meeting_title doc) None) docs \<and>
   list_all (\<lambda>blocks. length blocks = 4) (submissions evs)"
proof (induction docs arbitrary: w w' evs)
  case Nil
  then show ?case by simp
next
  case (Cons doc docs)
  obtain panels w1 ev1 where p: "get_document_panels net cfg (doc_id doc) w = (panels, w1, ev1)"
    by (metis prod_cases3)
  obtain segs w2 ev2 where t: "get_document_transcript net cfg (doc_id doc) w1 = (segs, w2, ev2)"
    by (metis prod_cases3)
  let ?blocks = "build_meeting_blocks parse doc panels segs"
  obtain r w3 ev3 where s: "send_blocks_to_craft net cfg ?blocks d w2 = (r, w3, ev3)"
    by (metis prod_cases3)
  obtain w4 rest where n: "sync_meetings net cfg parse d docs w3 = (w4, rest)"
    by (metis surj_pair)
  have evs: "evs = [Print (Syncing (meeting_title doc))] @ ev1 @ ev2 @ ev3
      @ [Print (if r = Some True then SuccessfullySynced (meeting_title doc)
                else FailedToSync (meeting_title doc))] @ rest"
    using Cons.prems by (simp add: p t s n)
  have sub: "submissions evs = ?blocks # submissions rest"
    unfolding evs submissions_append
    using get_document_panels_submits_nothing [OF p]
      get_document_transcript_submits_nothing [OF t]
      send_blocks_submits_once [OF build_meeting_blocks_not_empty s]
    by simp
  have hd: "hd ?blocks = Block (str ''text'') (Some (str ''h2'')) (meeting_title doc) None"
    by (simp add: build_meeting_blocks_def meeting_blocks_def)
  have len: "length ?blocks = 4"
    by (simp add: build_meeting_blocks_def meeting_blocks_def)
  from Cons.IH [OF n] sub hd len show ?case by simp
qed

section \<open>Properties of the summary\<close>

lemma example_summary:
  "summary_content html_parser example_panels = str ''### Title'' @ [10] @ str ''Body''"
proof -
  have f: "find_summary_html example_panels = str ''<h3>Title</h3><p>Body</p>''"
    by (simp add: example_panels_def str_def)
  have ne: "str ''<h3>Title</h3><p>Body</p>'' \<noteq> []"
    by (simp add: str_def)
  show ?thesis
    unfolding summary_content_def f Let_def using ne by (simp add: convert_example_heading)
qed

text \<open>
  Claim C2. The markdown of the summary block is the conversion of the
  \<^verbatim>\<open>original_content\<close> of the first panel whose title is exactly "Summary" when there
  is such a panel and its content is not empty; it is "No summary available." when there
  is no such panel, and also when the content of that panel is missing or empty (the test
  \<^verbatim>\<open>if summary_html\<close>). So the placeholder does not tell that no Summary panel exists.
\<close>

theorem summary_content_spec:
  "summary_content parse panels =
     (case find (\<lambda>p. panel_title p = Some (str ''Summary'')) panels of
        None \<Rightarrow> str ''No summary available.''
      | Some p \<Rightarrow>
          (case original_content p of
             None \<Rightarrow> str ''No summary available.''
           | Some h \<Rightarrow> if h = [] then str ''No summary available.''
                       else html_to_markdown parse h))"
  by (induction panels) (auto simp: summary_content_def no_summary_def split: option.splits)

theorem summary_content_witness:
  "find (\<lambda>p. panel_title p = Some (str ''Summary'')) example_panels
     = Some \<lparr>panel_title = Some (str ''Summary''),
             original_content = Some (str ''<h3>Title</h3><p>Body</p>'')\<rparr> \<and>
   summary_content html_parser example_panels
     = html_to_markdown html_parser (str ''<h3>Title</h3><p>Body</p>'') \<and>
   summary_content html_parser [] = str ''No summary available.''"
proof -
  have f: "find (\<lambda>p. panel_title p = Some (str ''Summary'')) example_panels
     = Some \<lparr>panel_title = Some (str ''Summary''),
             original_content = Some (str ''<h3>Title</h3><p>Body</p>'')\<rparr>"
    by (simp add: example_panels_def str_def)
  have "str ''<h3>Title</h3><p>Body</p>'' \<noteq> []" by (simp add: str_def)
  with summary_content_spec [of html_parser example_panels] f
    summary_content_spec [of html_parser "[]"]
  show ?thesis by simp
qed

theorem empty_summary_gets_placeholder:
  "panel_title \<lparr>panel_title = Some (str ''Summary''), original_content = Some []\<rparr>
     = Some (str ''Summary'') \<and>
   summary_content html_parser
     [\<lparr>panel_title = Some (str ''Summary''), original_content = Some []\<rparr>]
     = str ''No summary available.'' \<and>
   html_to_markdown html_parser [] = [] \<and>
   summary_content html_parser
     [\<lparr>panel_title = Some (str ''Summary''), original_content = Some []\<rparr>]
     \<noteq> html_to_markdown html_parser []"
  by (simp add: summary_content_def no_summary_def html_to_markdown_def) (simp add: str_def)

section \<open>Properties of a run without the session cookie\<close>

text \<open>
  Claim C3. With the session cookie unset the program does not fail at startup:
  \<^verbatim>\<open>get_headers()\<close> raises inside the \<^verbatim>\<open>try\<close> of every fetch function, so each fetch
  prints its error and returns the empty result without a request, and the run prints
  that no meetings were found and ends normally, submitting nothing.
\<close>

theorem missing_cookie_degrades:
  assumes "GRANOLA_COOKIE cfg = None"
  shows "get_granola_documents net cfg w = ([], w, [Print ErrorFetchingDocuments]) \<and>
         get_document_panels net cfg i w = ([], w, [Print (ErrorFetchingPanels i)]) \<and>
         get_document_transcript net cfg i w = (Some [], w, [Print (ErrorFetchingTranscript i)]) \<and>
         main net cfg parse yesterday w =
           (w, [Print (StartingSync (isoformat yesterday)), Print ErrorFetchingDocuments,
                Print (NoMeetingsFound (isoformat yesterday))])"
proof -
  have h: "get_headers cfg = Inl AttributeError"
    using assms by (simp add: get_headers_def)
  then have d: "get_granola_documents net cfg w = ([], w, [Print ErrorFetchingDocuments])"
    by (simp add: get_granola_documents_def)
  have "filter_meetings_by_date [] yesterday = []"
    by (simp add: filter_meetings_by_date_def)
  with d h show ?thesis
    by (simp add: get_document_panels_def get_document_transcript_def main_def Let_def)
qed

theorem missing_cookie_degrades_witness:
  "GRANOLA_COOKIE (example_config\<lparr>GRANOLA_COOKIE := None\<rparr>) = None \<and>
   get_document_panels example_network (example_config\<lparr>GRANOLA_COOKIE := None\<rparr>)
     (str ''m1'') 5 = ([], 5, [Print (ErrorFetchingPanels (str ''m1''))]) \<and>
   get_document_transcript example_network (example_config\<lparr>GRANOLA_COOKIE := None\<rparr>)
     (str ''m1'') 5 = (Some [], 5, [Print (ErrorFetchingTranscript (str ''m1''))]) \<and>
   submissions (snd (main example_network (example_config\<lparr>GRANOLA_COOKIE := None\<rparr>)
     html_parser example_date 0)) = []"
proof -
  have c: "GRANOLA_COOKIE (example_config\<lparr>GRANOLA_COOKIE := None\<rparr>) = None" by simp
  from missing_cookie_degrades [OF c, of example_network 5 "str ''m1''" html_parser example_date]
    missing_cookie_degrades [OF c, of example_network 0 "str ''m1''" html_parser example_date] c
  show ?thesis by simp
qed

theorem missing_cookie_run_completes:
  "get_granola_documents example_network (example_config\<lparr>GRANOLA_COOKIE := None\<rparr>) 0
     = ([], 0, [Print ErrorFetchingDocuments]) \<and>
   main example_network (example_config\<lparr>GRANOLA_COOKIE := None\<rparr>) html_parser example_date 0
     = (0, [Print (StartingSync (str ''2024-03-07'')), Print ErrorFetchingDocuments,
            Print (NoMeetingsFound (str ''2024-03-07''))])"
  by (simp add: main_def get_granola_documents_def get_headers_def example_config_def
      filter_meetings_by_date_def example_date_def isoformat_def digit_def Let_def)
    (simp add: str_def)

section \<open>Properties of the order of submissions\<close>

lemma example_targets:
  "filter_meetings_by_date (fst (get_granola_documents example_network example_config 0))
     example_date =
     [\<lparr>doc_id = str ''m1'', doc_title = Some (str ''Standup''),
       created_at = Some (str ''2024-03-07T09:00:00Z'')\<rparr>,
      \<lparr>doc_id = str ''m3'', doc_title = None,
       created_at = Some (str ''2024-03-07T16:30:00Z'')\<rparr>]"
  by (simp add: get_granola_documents_def get_headers_def example_network_def
      example_config_def example_documents_def example_date_def filter_meetings_by_date_def
      startswith_def isoformat_def digit_def Let_def str_def)

text \<open>
  Claim C10. In every run that selects at least one meeting, whatever the two services
  answer (so also when submissions fail): the first submission is the header block alone;
  it is followed by exactly one submission for each selected meeting, in the order of the
  filtered list, each of four blocks that start with the heading of that meeting. The
  header is submitted once: every other submission has four blocks.
\<close>

theorem submission_order:
  assumes "filter_meetings_by_date (fst (get_granola_documents net cfg w)) yesterday \<noteq> []"
  shows "hd (submissions (snd (main net cfg parse yesterday w)))
           = [header_block (isoformat yesterday)] \<and>
         length (submissions (snd (main net cfg parse yesterday w)))
           = Suc (length (filter_meetings_by_date (fst (get_granola_documents net cfg w))
                            yesterday)) \<and>
         map hd (tl (submissions (snd (main net cfg parse yesterday w)))) =
           map (\<lambda>doc. Block (str ''text'') (Some (str ''h2'')) (meeting_title doc) None)
             (filter_meetings_by_date (fst (get_granola_documents net cfg w)) yesterday) \<and>
         list_all (\<lambda>blocks. length blocks = 4)
           (tl (submissions (snd (main net cfg parse yesterday w))))"
proof -
  obtain docs w1 ev1 where g: "get_granola_documents net cfg w = (docs, w1, ev1)"
    by (metis prod_cases3)
  let ?target = "filter_meetings_by_date docs yesterday"
  let ?d = "isoformat yesterday"
  from assms g have ne: "?target \<noteq> []" by simp
  obtain r w2 ev2 where s: "send_blocks_to_craft net cfg [header_block ?d] ?d w1 = (r, w2, ev2)"
    by (metis prod_cases3)
  obtain w3 ev3 where m: "sync_meetings net cfg parse ?d ?target w2 = (w3, ev3)"
    by (metis surj_pair)
  have "snd (main net cfg parse yesterday w) =
      [Print (StartingSync ?d)] @ ev1 @ [Print (FoundMeetings (length ?target))] @ ev2 @ ev3"
    using ne by (simp add: main_def g s m Let_def)
  then have sub: "submissions (snd (main net cfg parse yesterday w)) =
      [header_block ?d] # submissions ev3"
    using get_granola_documents_submits_nothing [OF g] send_blocks_submits_once [OF _ s]
    by (simp add: submissions_append)
  from sync_meetings_submissions [OF m] show ?thesis
    unfolding sub by (simp add: g)
qed

theorem submission_order_witness:
  "filter_meetings_by_date (fst (get_granola_documents example_network example_config 0))
     example_date \<noteq> [] \<and>
   hd (submissions (snd (main example_network example_config html_parser example_date 0)))
     = [header_block (str ''2024-03-07'')] \<and>
   length (submissions (snd (main example_network example_config html_parser example_date 0)))
     = 3 \<and>
   map hd (tl (submissions
     (snd (main example_network example_config html_parser example_date 0)))) =
     [Block (str ''text'') (Some (str ''h2'')) (str ''Standup'') None,
      Block (str ''text'') (Some (str ''h2'')) (str ''Untitled Meeting'') None] \<and>
   list_all (\<lambda>blocks. length blocks = 4) (tl (submissions
     (snd (main example_network example_config html_parser example_date 0))))"
proof -
  have ne: "filter_meetings_by_date (fst (get_granola_documents example_network example_config 0))
     example_date \<noteq> []"
    by (simp add: example_targets)
  have iso: "isoformat example_date = str ''2024-03-07''"
    by (simp add: example_date_def isoformat_def digit_def str_def)
  have t1: "meeting_title \<lparr>doc_id = str ''m1'', doc_title = Some (str ''Standup''),
       created_at = Some (str ''2024-03-07T09:00:00Z'')\<rparr> = str ''Standup''"
    by (simp add: meeting_title_def str_def)
  have t3: "meeting_title \<lparr>doc_id = str ''m3'', doc_title = None,
       created_at = Some (str ''2024-03-07T16:30:00Z'')\<rparr> = str ''Untitled Meeting''"
    by (simp add: meeting_title_def untitled_meeting_def)
  from submission_order [OF ne, of html_parser] ne show ?thesis
    unfolding example_targets iso by (simp add: t1 t3)
qed


end
